theory Spec2Isabelle
  imports Complex_Main "HOL-Library.Word"
begin

section \<open>JavaScript values used by the player\<close>

text \<open>
  Indices are JavaScript numbers holding integers (\<open>-1\<close> is the "no track" marker), so they
  are \<open>int\<close>. Reading an array outside its bounds gives \<open>undefined\<close>: \<open>None\<close> here.
  Reading a property of \<open>undefined\<close> throws a \<open>TypeError\<close>.
\<close>

datatype js_error = TypeError

definition js_get :: "'a list \<Rightarrow> int \<Rightarrow> 'a option" where
  "js_get xs i = (if 0 \<le> i \<and> i < int (length xs) then Some (xs ! nat i) else None)"

text \<open>\<open>xs.slice(0, e)\<close>: a negative end counts from the end, a large one stops at the length.\<close>

definition js_slice0 :: "'a list \<Rightarrow> int \<Rightarrow> 'a list" where
  "js_slice0 xs e =
     (let n = int (length xs);
          k = (if e < 0 then max (n + e) 0 else min e n)
      in take (nat k) xs)"

section \<open>The playlist session of \<open>App\<close>\<close>

record track =
  track_id :: string
  path :: string
  title :: string
  artist :: string
  album :: string
  coverArt :: "string option"

record track_metadata =
  md_title :: string
  md_artist :: string
  md_album :: string
  md_coverArt :: "string option"

record current_track =
  url :: string
  metadata :: track_metadata

record app_state =
  currentTrack :: "current_track option"
  allTracks :: "track list"
  currentTrackIndex :: int
  isShuffled :: bool
  shuffleHistory :: "int list"
  shuffleHistoryIndex :: int

text \<open>
  The object handed to \<open>setCurrentTrack\<close> by both handlers:
  \<open>{ url: track.path, metadata: { title, artist, album, coverArt: track.coverArt || undefined } }\<close>.
  A \<open>null\<close> or empty cover reference becomes \<open>undefined\<close>.
\<close>

definition track_entry :: "track \<Rightarrow> current_track" where
  "track_entry t =
     \<lparr> url = path t,
       metadata = \<lparr> md_title = title t, md_artist = artist t, md_album = album t,
                    md_coverArt = (case coverArt t of None \<Rightarrow> None
                                   | Some c \<Rightarrow> if c = [] then None else Some c) \<rparr> \<rparr>"

text \<open>
  \<open>getNextTrackIndex\<close>. \<open>Math.random()\<close> is the parameter \<open>rnd\<close>, a number in \<open>[0, 1)\<close>;
  \<open>Math.floor(rnd * availableIndexes.length)\<close> is then below the length.
  The result \<open>None\<close> stands for \<open>undefined\<close> (an array read out of range).
\<close>

definition getNextTrackIndex :: "rat \<Rightarrow> app_state \<Rightarrow> int option" where
  "getNextTrackIndex rnd s =
     (if \<not> isShuffled s then
        Some (if currentTrackIndex s < int (length (allTracks s)) - 1
              then currentTrackIndex s + 1 else - 1)
      else if length (allTracks s) = 0 then Some (- 1)
      else if shuffleHistoryIndex s < int (length (shuffleHistory s)) - 1 then
        js_get (shuffleHistory s) (shuffleHistoryIndex s + 1)
      else if length (allTracks s) > 1 then
        (let availableIndexes =
               filter (\<lambda>idx. idx \<noteq> currentTrackIndex s) (map int [0..<length (allTracks s)]);
             randomIndex = \<lfloor>rnd * of_nat (length availableIndexes)\<rfloor>
         in js_get availableIndexes randomIndex)
      else if length (allTracks s) = 1 then Some (currentTrackIndex s)
      else Some (- 1))"

definition getPreviousTrackIndex :: "app_state \<Rightarrow> int option" where
  "getPreviousTrackIndex s =
     (if \<not> isShuffled s then
        Some (if currentTrackIndex s > 0 then currentTrackIndex s - 1 else - 1)
      else if length (shuffleHistory s) > 0 \<and> shuffleHistoryIndex s > 0 then
        js_get (shuffleHistory s) (shuffleHistoryIndex s - 1)
      else Some (- 1))"

text \<open>
  \<open>handlePreviousTrack\<close> and \<open>handleNextTrack\<close>. Both read \<open>allTracks[newIndex]\<close> and then
  \<open>track.title\<close>; when the index is \<open>undefined\<close> or outside the list this throws, and the
  handler is left through \<open>Inl TypeError\<close> (the model does not describe the state after
  the exception). Otherwise the result is the state after all the \<open>set...\<close> calls. Each
  function works on the state of the render it is called in. The effect of \<open>App\<close> that
  looks the current track's URL up in \<open>allTracks\<close> after a render and stores the index
  found is not part of these handlers and is not modelled; it stores the same index when
  the tracks' paths are distinct.
\<close>

definition handlePreviousTrack :: "app_state \<Rightarrow> js_error + app_state" where
  "handlePreviousTrack s =
     (case getPreviousTrackIndex s of
        None \<Rightarrow> Inl TypeError
      | Some newIndex \<Rightarrow>
          if newIndex \<noteq> - 1 then
            (let s1 = s\<lparr>currentTrackIndex := newIndex\<rparr>;
                 s2 = (if isShuffled s \<and> shuffleHistoryIndex s > 0
                       then s1\<lparr>shuffleHistoryIndex := shuffleHistoryIndex s - 1\<rparr>
                       else s1)
             in case js_get (allTracks s) newIndex of
                  None \<Rightarrow> Inl TypeError
                | Some t \<Rightarrow> Inr (s2\<lparr>currentTrack := Some (track_entry t)\<rparr>))
          else Inr s)"

definition handleNextTrack :: "rat \<Rightarrow> app_state \<Rightarrow> js_error + app_state" where
  "handleNextTrack rnd s =
     (case getNextTrackIndex rnd s of
        None \<Rightarrow> Inl TypeError
      | Some newIndex \<Rightarrow>
          if newIndex \<noteq> - 1 then
            (let s1 = s\<lparr>currentTrackIndex := newIndex\<rparr>;
                 s2 = (if isShuffled s then
                         (if shuffleHistoryIndex s < int (length (shuffleHistory s)) - 1
                          then s1\<lparr>shuffleHistoryIndex := shuffleHistoryIndex s + 1\<rparr>
                          else (let newHistory =
                                      js_slice0 (shuffleHistory s) (shuffleHistoryIndex s + 1)
                                        @ [newIndex]
                                in s1\<lparr>shuffleHistory := newHistory,
                                       shuffleHistoryIndex := int (length newHistory) - 1\<rparr>))
                       else s1)
             in case js_get (allTracks s) newIndex of
                  None \<Rightarrow> Inl TypeError
                | Some t \<Rightarrow> Inr (s2\<lparr>currentTrack := Some (track_entry t)\<rparr>))
          else Inr s)"

text \<open>\<open>handleShuffleChange\<close>: switching shuffle on starts the history at the current track.\<close>

definition handleShuffleChange :: "bool \<Rightarrow> app_state \<Rightarrow> app_state" where
  "handleShuffleChange shuffleState s =
     (if shuffleState then
        (if currentTrackIndex s \<noteq> - 1
         then s\<lparr>isShuffled := True, shuffleHistory := [currentTrackIndex s],
                shuffleHistoryIndex := 0\<rparr>
         else s\<lparr>isShuffled := True, shuffleHistory := [], shuffleHistoryIndex := - 1\<rparr>)
      else s\<lparr>isShuffled := False, shuffleHistory := [], shuffleHistoryIndex := - 1\<rparr>)"

section \<open>The player component\<close>

text \<open>
  The media element behind \<open>audioRef.current\<close>, as far as the handlers below touch it: the
  position last assigned to \<open>currentTime\<close> and the number of \<open>play()\<close> calls made on it.
  Times are JavaScript numbers; the handlers only copy them, so they are \<open>real\<close> here.
\<close>

record audio_element =
  el_currentTime :: real
  el_play_requests :: nat

text \<open>What a rejected promise or a \<open>catch\<close> clause can receive.\<close>

datatype js_thrown = ErrorObject string | ThrownString string | ThrownObject string | ThrownOther

text \<open>
  The result of \<open>audio.play()\<close>: \<open>undefined\<close> in browsers that return no promise, else a
  promise that the browser later resolves or rejects (autoplay blocked).
\<close>

datatype play_result = PlayUndefined | PlayResolved | PlayRejected js_thrown

record player =
  isPlaying :: bool
  currentTime :: real
  duration :: real
  loading :: bool
  error :: "string option"
  repeatMode :: nat
  audio :: "audio_element option"

text \<open>
  \<open>handleSeek\<close>: \<open>setCurrentTime(seekTime)\<close>, then, when the element exists,
  \<open>audioRef.current.currentTime = seekTime\<close>.
\<close>

definition handleSeek :: "real \<Rightarrow> player \<Rightarrow> player" where
  "handleSeek seekTime p =
     p\<lparr>currentTime := seekTime,
       audio := (case audio p of None \<Rightarrow> None
                 | Some a \<Rightarrow> Some (a\<lparr>el_currentTime := seekTime\<rparr>))\<rparr>"

text \<open>
  The properties of \<open>EnhancedAudioPlayer\<close> that \<open>handleEnded\<close> reads. The two callbacks are
  optional properties: \<open>onNext\<close> and \<open>onPrevious\<close> say whether one was supplied.
\<close>

record player_props =
  hasPrevious :: bool
  hasNext :: bool
  onNext :: bool
  onPrevious :: bool

datatype callback = OnNext | OnPrevious

text \<open>
  \<open>handleEnded\<close> of \<open>EnhancedAudioPlayer\<close> (0: no repeat, 1: repeat all, 2: repeat one).
  The result is the player state and the callback that was invoked, if any. In the
  repeat-one branch \<open>pr\<close> is what \<open>play()\<close> gives; a rejection is only logged.
\<close>

definition handleEnded :: "player_props \<Rightarrow> play_result \<Rightarrow> player \<Rightarrow> player \<times> callback option" where
  "handleEnded props pr p =
     (let p1 = p\<lparr>isPlaying := False, currentTime := 0,
                  audio := (case audio p of None \<Rightarrow> None
                            | Some a \<Rightarrow> Some (a\<lparr>el_currentTime := 0\<rparr>))\<rparr>
      in if repeatMode p = 2 then
           (case audio p1 of
              None \<Rightarrow> (p1, None)
            | Some a \<Rightarrow>
                (let p2 = p1\<lparr>audio := Some (a\<lparr>el_play_requests := el_play_requests a + 1\<rparr>)\<rparr>
                 in case pr of
                      PlayResolved \<Rightarrow> (p2\<lparr>isPlaying := True\<rparr>, None)
                    | PlayRejected e \<Rightarrow> (p2, None)
                    | PlayUndefined \<Rightarrow> (p2, None)))
         else if repeatMode p = 1 \<and> hasNext props \<and> onNext props then (p1, Some OnNext)
         else if repeatMode p = 1 \<and> \<not> hasNext props \<and> hasPrevious props \<and> onPrevious props
           then (p1, Some OnPrevious)
         else if hasNext props \<and> onNext props then (p1, Some OnNext)
         else (p1, None))"

text \<open>
  The properties \<open>App\<close> renders the player with:
  \<open>hasPrevious={getPreviousTrackIndex() !== -1}\<close>, \<open>hasNext={allTracks.length > 0}\<close>,
  \<open>onPrevious={handlePreviousTrack}\<close>, \<open>onNext={handleNextTrack}\<close>.
\<close>

definition app_props :: "app_state \<Rightarrow> player_props" where
  "app_props s =
     \<lparr> hasPrevious = (getPreviousTrackIndex s \<noteq> Some (- 1)),
       hasNext = (length (allTracks s) > 0),
       onNext = True, onPrevious = True \<rparr>"

text \<open>The "ended" event of the media element, in the player as \<open>App\<close> renders it.\<close>

definition track_ended ::
  "rat \<Rightarrow> play_result \<Rightarrow> app_state \<times> player \<Rightarrow> js_error + app_state \<times> player" where
  "track_ended rnd pr sp =
     (case sp of (s, p) \<Rightarrow>
        (case handleEnded (app_props s) pr p of
           (p', None) \<Rightarrow> Inr (s, p')
         | (p', Some OnNext) \<Rightarrow>
             (case handleNextTrack rnd s of Inl e \<Rightarrow> Inl e | Inr s' \<Rightarrow> Inr (s', p'))
         | (p', Some OnPrevious) \<Rightarrow>
             (case handlePreviousTrack s of Inl e \<Rightarrow> Inl e | Inr s' \<Rightarrow> Inr (s', p'))))"

subsection \<open>Automatic playback after a track is loaded\<close>

text \<open>
  The block "Try to play automatically" of the track-loading effect (\<open>useAudioPlayer\<close>, and
  the same text in \<open>EnhancedAudioPlayer\<close>). It runs inside the effect's 200 ms timer, after
  the check \<open>if (!isMounted) return\<close>. Its continuations run later, when the browser
  settles a promise or fires the 300 ms timer; the effect's cleanup may have cleared
  \<open>isMounted\<close> by then. \<open>load_env\<close> records what the browser does and what \<open>isMounted\<close> is at
  each of these moments.
\<close>

record load_env =
  first_play :: play_result
  mounted_at_settle :: bool
  mounted_at_retry_timer :: bool
  retry_play :: play_result
  mounted_at_retry_settle :: bool

definition handleSuccess :: "bool \<Rightarrow> player \<Rightarrow> player" where
  "handleSuccess isMounted p =
     (if \<not> isMounted then p else p\<lparr>loading := False, isPlaying := True\<rparr>)"

definition errorMessage :: "js_thrown \<Rightarrow> string" where
  "errorMessage err =
     (case err of
        ErrorObject m \<Rightarrow> m
      | ThrownString m \<Rightarrow> m
      | ThrownObject m \<Rightarrow> m
      | ThrownOther \<Rightarrow> ''Unknown error'')"

definition handleFailure :: "bool \<Rightarrow> js_thrown \<Rightarrow> player \<Rightarrow> player" where
  "handleFailure isMounted err p =
     (if \<not> isMounted then p
      else p\<lparr>loading := False, isPlaying := False,
             error := Some (''Error loading audio: '' @ errorMessage err)\<rparr>)"

text \<open>
  The result is the element, the player state and the delay of the retry timer when one
  was armed. \<open>a\<close> is the element the effect holds in its constant \<open>audio\<close>, which is not
  null at this point; \<open>play()\<close> is taken to return, as the DOM specifies, and not to throw.
\<close>

definition autoPlay ::
  "load_env \<Rightarrow> audio_element \<Rightarrow> player \<Rightarrow> audio_element \<times> player \<times> nat option" where
  "autoPlay env a p =
     (let a1 = a\<lparr>el_play_requests := el_play_requests a + 1\<rparr>
      in case first_play env of
           PlayUndefined \<Rightarrow> (a1, handleSuccess True p, None)
         | PlayResolved \<Rightarrow> (a1, handleSuccess (mounted_at_settle env) p, None)
         | PlayRejected err \<Rightarrow>
             if \<not> mounted_at_retry_timer env then (a1, p, Some 300)
             else
               (let a2 = a1\<lparr>el_play_requests := el_play_requests a1 + 1\<rparr>
                in case retry_play env of
                     PlayUndefined \<Rightarrow> (a2, p, Some 300)
                   | PlayResolved \<Rightarrow>
                       (a2, handleSuccess (mounted_at_retry_settle env) p, Some 300)
                   | PlayRejected e \<Rightarrow>
                       (a2, handleFailure (mounted_at_retry_settle env) e p, Some 300)))"

section \<open>The bass analysis loop\<close>

text \<open>
  A JavaScript number that may be \<open>NaN\<close>: reading a typed array outside its length gives
  \<open>undefined\<close>, and arithmetic on it gives \<open>NaN\<close>. Arithmetic is over the reals; rounding
  of the floating-point operations is not modelled.
\<close>

datatype js_num = Num real | NaN

definition bassRange :: nat where
  "bassRange = 8"

text \<open>
  The \<open>for\<close> loop of \<open>analyzeBass\<close> over a \<open>Uint8Array\<close>: the accumulator holds \<open>bassSum\<close> and
  \<open>maxBassValue\<close>, and is \<open>None\<close> once a read was \<open>undefined\<close> (both are \<open>NaN\<close> from then on).
\<close>

definition bass_step :: "8 word list \<Rightarrow> nat \<Rightarrow> (nat \<times> nat) option \<Rightarrow> (nat \<times> nat) option" where
  "bass_step dataArray i acc =
     (case acc of
        None \<Rightarrow> None
      | Some (bassSum, maxBassValue) \<Rightarrow>
          (case js_get dataArray (int i) of
             None \<Rightarrow> None
           | Some v \<Rightarrow> Some (bassSum + unat v, max maxBassValue (unat v))))"

definition bass_loop :: "8 word list \<Rightarrow> (nat \<times> nat) option" where
  "bass_loop dataArray = fold (bass_step dataArray) [0..<bassRange] (Some (0, 0))"

definition analyzeBass_value :: "8 word list \<Rightarrow> js_num" where
  "analyzeBass_value dataArray =
     (case bass_loop dataArray of
        None \<Rightarrow> NaN
      | Some (bassSum, maxBassValue) \<Rightarrow>
          (let avgBass = real bassSum / (real bassRange * 255);
               normalizedBass = min 1 (avgBass * (7 / 10) + (real maxBassValue / 255) * (3 / 10));
               scaledBass = normalizedBass powr (8 / 10) * (8 / 10)
           in Num scaledBass))"

text \<open>
  The formula as the specification words it, on the bins of the bass window:
  \<open>avg = mean(bins)/255\<close>, \<open>peak = max(bins)/255\<close>, \<open>normalized = min(1, avg*0.7 + peak*0.3)\<close>,
  \<open>output = normalized^0.8 * 0.8\<close>.
\<close>

definition spec_bass_intensity :: "nat list \<Rightarrow> real" where
  "spec_bass_intensity bins =
     (let avg = (real (sum_list bins) / real (length bins)) / 255;
          peak = real (Max (set bins)) / 255;
          normalized = min 1 (avg * (7 / 10) + peak * (3 / 10))
      in normalized powr (8 / 10) * (8 / 10))"

text \<open>
  The browser's animation-frame callbacks and the reference the component keeps:
  \<open>scheduled\<close> holds the handles of the callbacks requested and not yet run or cancelled;
  handles are positive, as \<open>requestAnimationFrame\<close> returns them.
\<close>

record raf =
  animationFrameRef :: "nat option"
  scheduled :: "nat list"
  last_handle :: nat

record analysis = raf +
  bassValue :: js_num
  ticks :: nat
  cleanup_registered :: bool

definition requestAnimationFrame :: "'a raf_scheme \<Rightarrow> nat \<times> 'a raf_scheme" where
  "requestAnimationFrame s =
     (let h = last_handle s + 1
      in (h, s\<lparr>scheduled := scheduled s @ [h], last_handle := h\<rparr>))"

definition cancelAnimationFrame :: "nat \<Rightarrow> 'a raf_scheme \<Rightarrow> 'a raf_scheme" where
  "cancelAnimationFrame h s = s\<lparr>scheduled := filter (\<lambda>x. x \<noteq> h) (scheduled s)\<rparr>"

text \<open>
  \<open>if (animationFrameRef.current) { cancelAnimationFrame(animationFrameRef.current);
  animationFrameRef.current = null; }\<close>: \<open>null\<close> and \<open>0\<close> are falsy.
\<close>

definition cancel_pending_frame :: "'a raf_scheme \<Rightarrow> 'a raf_scheme" where
  "cancel_pending_frame s =
     (case animationFrameRef s of
        None \<Rightarrow> s
      | Some h \<Rightarrow> if h = 0 then s else (cancelAnimationFrame h s)\<lparr>animationFrameRef := None\<rparr>)"

text \<open>What \<open>analyser.getByteFrequencyData(dataArray)\<close> does in one tick: it throws, or fills the array.\<close>

datatype frame_data = Throws | Data "8 word list"

text \<open>
  One tick, \<open>analyzeBass\<close>: publish the value and request the next frame; on an exception
  publish 0 and request nothing. \<open>ticks\<close> counts the ticks run.
\<close>

definition analyzeBass :: "frame_data \<Rightarrow> analysis \<Rightarrow> analysis" where
  "analyzeBass fd s =
     (let s0 = s\<lparr>ticks := ticks s + 1\<rparr>
      in case fd of
           Throws \<Rightarrow> s0\<lparr>bassValue := Num 0\<rparr>
         | Data dataArray \<Rightarrow>
             (let s1 = s0\<lparr>bassValue := analyzeBass_value dataArray\<rparr>
              in case requestAnimationFrame s1 of
                   (h, s2) \<Rightarrow> s2\<lparr>animationFrameRef := Some h\<rparr>))"

text \<open>
  The body of the effect with dependencies \<open>[analyser, isPlaying]\<close>: without an analyser or
  when not playing it returns without a cleanup (resetting the value when not playing);
  otherwise it runs the first tick at once and registers the cleanup.
\<close>

definition analysis_effect :: "bool \<Rightarrow> bool \<Rightarrow> frame_data \<Rightarrow> analysis \<Rightarrow> analysis" where
  "analysis_effect has_analyser playing fd s =
     (if \<not> has_analyser \<or> \<not> playing then
        (if \<not> playing then s\<lparr>bassValue := Num 0\<rparr> else s)\<lparr>cleanup_registered := False\<rparr>
      else (analyzeBass fd s)\<lparr>cleanup_registered := True\<rparr>)"

text \<open>
  What can happen to the loop. \<open>DepsChanged\<close>: a dependency changed, React runs the cleanup
  registered by the previous run, then the body. \<open>AnimationFrame\<close>: the browser takes the
  scheduled callbacks and runs them. \<open>FrameCancelled\<close>: the same cancel idiom run by the
  cleanup of the initialisation effect. \<open>GraphReset\<close>: \<open>resetAudioContext\<close> or
  \<open>safeResetAudioContext\<close>, which run the idiom and \<open>setBassValue(0)\<close>.
\<close>

datatype event =
    DepsChanged bool bool frame_data
  | AnimationFrame frame_data
  | FrameCancelled
  | GraphReset

definition animation_frame :: "frame_data \<Rightarrow> analysis \<Rightarrow> analysis" where
  "animation_frame fd s = fold (\<lambda>h. analyzeBass fd) (scheduled s) (s\<lparr>scheduled := []\<rparr>)"

fun step :: "event \<Rightarrow> analysis \<Rightarrow> analysis" where
  "step (DepsChanged has_analyser playing fd) s =
     analysis_effect has_analyser playing fd
       (if cleanup_registered s then cancel_pending_frame s else s)"
| "step (AnimationFrame fd) s = animation_frame fd s"
| "step FrameCancelled s = cancel_pending_frame s"
| "step GraphReset s = (cancel_pending_frame s)\<lparr>bassValue := Num 0\<rparr>"

definition initial_analysis :: analysis where
  "initial_analysis =
     \<lparr> animationFrameRef = None, scheduled = [], last_handle = 0,
       bassValue = Num 0, ticks = 0, cleanup_registered = False \<rparr>"

fun sets_playing :: "event \<Rightarrow> bool" where
  "sets_playing (DepsChanged has_analyser playing fd) = playing"
| "sets_playing (AnimationFrame fd) = False"
| "sets_playing FrameCancelled = False"
| "sets_playing GraphReset = False"

text \<open>The loop is at rest: nothing scheduled, no handle kept, no cleanup registered.\<close>

definition at_rest :: "analysis \<Rightarrow> bool" where
  "at_rest s \<longleftrightarrow>
     animationFrameRef s = None \<and> scheduled s = [] \<and> \<not> cleanup_registered s"

text \<open>
  What holds of every state the loop can reach: the kept handle is never 0; with a cleanup
  registered at most one callback is scheduled and the kept handle is its handle; without
  one the loop is at rest.
\<close>

definition loop_inv :: "analysis \<Rightarrow> bool" where
  "loop_inv s \<longleftrightarrow>
     animationFrameRef s \<noteq> Some 0 \<and>
     (if cleanup_registered s
      then (case scheduled s of
              [] \<Rightarrow> True
            | h # hs \<Rightarrow> hs = [] \<and> animationFrameRef s = Some h)
      else animationFrameRef s = None \<and> scheduled s = [])"

section \<open>The audio graph manager (\<open>useAudioContext\<close>)\<close>

text \<open>
  The browser's audio contexts are kept in a store, in the order of their construction;
  a context is referred to by its position. \<open>ctx_state\<close> is the \<open>state\<close> attribute the code
  reads. \<open>close()\<close> is asynchronous: the call records the request (\<open>close_requested\<close>) and
  returns a promise; the \<open>state\<close> attribute becomes \<open>closed\<close> only when the browser has
  finished closing (\<open>complete_close\<close> below), which is when the promise resolves. A second
  \<open>close()\<close> on a context whose close was already requested is rejected by the browser.
\<close>

datatype ctx_state = Suspended | Running | Closed

record audio_context =
  ctx_state :: ctx_state
  close_requested :: bool

text \<open>
  The React state of the hook. The analyser and the source node are identified by the
  context they were created in.
\<close>

record hook_state =
  audioContext :: "nat option"
  analyser :: "nat option"
  audioSource :: "nat option"

record media_element =
  src :: string

text \<open>Calls made on the browser, in order.\<close>

datatype platform_call =
    SourceDisconnect nat
  | AnalyserDisconnect nat
  | ContextClose nat
  | ContextNew nat
  | WrapElement nat
  | ContextResume nat
  | ElementLoad
  | ElementPause

text \<open>
  \<open>hook\<close> is the React state as last set. A callback works on the values of the render it
  was created in; these are passed to the functions below as the closure \<open>cl\<close>.
  \<open>close_continuations\<close> holds the contexts on whose pending close promise a \<open>.then\<close> of
  \<open>safeResetAudioContext\<close> waits; \<open>create_timers\<close> the pending 100 ms timers of
  \<open>createAudioContext\<close> with the closure and the URL they will run with;
  \<open>errors_logged\<close> counts the \<open>console.error\<close> calls.
\<close>

record graph_world = raf +
  contexts :: "audio_context list"
  hook :: hook_state
  element :: "media_element option"
  close_continuations :: "nat list"
  create_timers :: "(hook_state \<times> string option) list"
  errors_logged :: nat
  calls :: "platform_call list"

definition log_call :: "platform_call \<Rightarrow> graph_world \<Rightarrow> graph_world" where
  "log_call c w = w\<lparr>calls := calls w @ [c]\<rparr>"

definition log_error :: "graph_world \<Rightarrow> graph_world" where
  "log_error w = w\<lparr>errors_logged := errors_logged w + 1\<rparr>"

text \<open>A promise that is already settled, or one that settles when the browser has closed a context.\<close>

datatype promise = Settled | OnClose nat

text \<open>
  \<open>safelyCloseAudioContext\<close>. A reference outside the store cannot be built by the code; it
  is treated as the \<open>catch\<close> branch. A rejected \<open>close()\<close> is logged by the \<open>.catch\<close> handler,
  which settles the promise.
\<close>

definition safelyCloseAudioContext :: "nat option \<Rightarrow> graph_world \<Rightarrow> promise \<times> graph_world" where
  "safelyCloseAudioContext context w =
     (case context of
        None \<Rightarrow> (Settled, w)
      | Some c \<Rightarrow>
          (case js_get (contexts w) (int c) of
             None \<Rightarrow> (Settled, log_error w)
           | Some ctx \<Rightarrow>
               if ctx_state ctx = Closed then (Settled, w)
               else
                 (let w1 = log_call (ContextClose c) w
                  in if close_requested ctx then (Settled, log_error w1)
                     else (OnClose c,
                           w1\<lparr>contexts := (contexts w1)[c := ctx\<lparr>close_requested := True\<rparr>]\<rparr>))))"

text \<open>
  The browser has finished closing context \<open>c\<close> (a close must have been requested): its
  state becomes \<open>closed\<close>, the promise resolves, and each waiting \<open>.then\<close> of
  \<open>safeResetAudioContext\<close> runs \<open>setAudioContext(null)\<close>.
\<close>

definition complete_close :: "nat \<Rightarrow> graph_world \<Rightarrow> graph_world" where
  "complete_close c w =
     (case js_get (contexts w) (int c) of
        None \<Rightarrow> w
      | Some ctx \<Rightarrow>
          if close_requested ctx then
            (let w1 = w\<lparr>contexts := (contexts w)[c := ctx\<lparr>ctx_state := Closed\<rparr>]\<rparr>
             in if c \<in> set (close_continuations w1)
                then w1\<lparr>close_continuations := filter (\<lambda>x. x \<noteq> c) (close_continuations w1),
                        hook := (hook w1)\<lparr>audioContext := None\<rparr>\<rparr>
                else w1)
          else w)"

text \<open>
  \<open>safeResetAudioContext\<close>. It returns without waiting for the close: the \<open>.then\<close> that
  clears the stored context runs when the promise settles, at once for a settled promise
  and at \<open>complete_close\<close> for a pending one.
\<close>

definition safeResetAudioContext :: "hook_state \<Rightarrow> graph_world \<Rightarrow> graph_world" where
  "safeResetAudioContext cl w =
     (let w1 = (case audioSource cl of
                  None \<Rightarrow> w
                | Some n \<Rightarrow> (log_call (SourceDisconnect n) w)
                              \<lparr>hook := (hook w)\<lparr>audioSource := None\<rparr>\<rparr>);
          w2 = (case analyser cl of
                  None \<Rightarrow> w1
                | Some n \<Rightarrow> (log_call (AnalyserDisconnect n) w1)
                              \<lparr>hook := (hook w1)\<lparr>analyser := None\<rparr>\<rparr>);
          w3 = (case audioContext cl of
                  None \<Rightarrow> w2
                | Some c \<Rightarrow>
                    (case safelyCloseAudioContext (Some c) w2 of
                       (Settled, w') \<Rightarrow> w'\<lparr>hook := (hook w')\<lparr>audioContext := None\<rparr>\<rparr>
                     | (OnClose c', w') \<Rightarrow>
                         w'\<lparr>close_continuations := close_continuations w' @ [c']\<rparr>))
      in cancel_pending_frame w3)"

text \<open>
  What the browser answers while \<open>createNewContext\<close> runs: whether an \<open>AudioContext\<close>
  constructor exists, the state of a new context (\<open>suspended\<close> before a user gesture),
  the result of each \<open>createMediaElementSource\<close> (\<open>AlreadyConnected\<close>: it throws an error
  whose message contains "already connected"; \<open>WrapFailed\<close>: it throws another error), and
  whether \<open>resume()\<close> succeeds.
\<close>

datatype wrap_result = Wrapped | AlreadyConnected | WrapFailed

record create_env =
  supported :: bool
  new_state :: ctx_state
  first_wrap :: wrap_result
  retry_wrap :: wrap_result
  resume_ok :: bool

definition new_context :: "ctx_state \<Rightarrow> graph_world \<Rightarrow> nat \<times> graph_world" where
  "new_context st w =
     (let n = length (contexts w)
      in (n, (log_call (ContextNew n) w)
               \<lparr>contexts := contexts w @ [\<lparr>ctx_state = st, close_requested = False\<rparr>]\<rparr>))"

definition set_graph :: "nat \<Rightarrow> graph_world \<Rightarrow> graph_world" where
  "set_graph n w = w\<lparr>hook := \<lparr>audioContext = Some n, analyser = Some n, audioSource = Some n\<rparr>\<rparr>"

text \<open>
  \<open>createNewContext\<close>, in the order of its text. First the path after a successful wrap:
  connect, store the graph, resume a suspended context (a failure to resume is only logged).
\<close>

definition finish_graph :: "create_env \<Rightarrow> nat \<Rightarrow> graph_world \<Rightarrow> bool \<times> graph_world" where
  "finish_graph env newAudioContext w =
     (let w1 = set_graph newAudioContext w
      in if new_state env = Suspended then
           (let w2 = log_call (ContextResume newAudioContext) w1
            in if resume_ok env
               then (True, w2\<lparr>contexts := (contexts w2)
                       [newAudioContext := \<lparr>ctx_state = Running, close_requested = False\<rparr>]\<rparr>)
               else (True, log_error w2))
         else (True, w1))"

text \<open>
  \<open>if (audioContext) { await safelyCloseAudioContext(audioContext); setAudioContext(null); }\<close>
  At the \<open>await\<close> the function continues once the promise has settled: for a pending
  close that is when the browser has closed the context.
\<close>

definition close_existing :: "hook_state \<Rightarrow> graph_world \<Rightarrow> graph_world" where
  "close_existing cl w =
     (case audioContext cl of
        None \<Rightarrow> w
      | Some c \<Rightarrow>
          (case safelyCloseAudioContext (Some c) w of
             (Settled, w') \<Rightarrow> w'\<lparr>hook := (hook w')\<lparr>audioContext := None\<rparr>\<rparr>
           | (OnClose c', w') \<Rightarrow>
               (let w'' = complete_close c' w'
                in w''\<lparr>hook := (hook w'')\<lparr>audioContext := None\<rparr>\<rparr>)))"

text \<open>
  The handler of the "already connected" error: close the stored context, pause the
  element, construct \<open>retryContext\<close> and wrap the same element once more.
\<close>

definition retry_wrap_path :: "hook_state \<Rightarrow> create_env \<Rightarrow> graph_world \<Rightarrow> bool \<times> graph_world" where
  "retry_wrap_path cl env w =
     (let w1 = close_existing cl w;
          w2 = log_call ElementPause w1
      in case new_context (new_state env) w2 of
           (retryContext, w3) \<Rightarrow>
             (let w4 = log_call (WrapElement retryContext) w3
              in case retry_wrap env of
                   Wrapped \<Rightarrow> (True, set_graph retryContext w4)
                 | AlreadyConnected \<Rightarrow> (False, log_error w4)
                 | WrapFailed \<Rightarrow> (False, log_error w4)))"

text \<open>
  The check of the element's source: with no source (\<open>!audio.src || audio.src ===
  'about:blank'\<close>) the URL passed in is assigned and loaded; without a usable URL
  \<open>createNewContext\<close> gives up (\<open>None\<close>).
\<close>

definition ensure_source :: "string option \<Rightarrow> media_element \<Rightarrow> graph_world \<Rightarrow> graph_world option" where
  "ensure_source sourceUrl audio_el w =
     (if src audio_el = [] \<or> src audio_el = ''about:blank'' then
        (case sourceUrl of
           None \<Rightarrow> None
         | Some u \<Rightarrow>
             if u = [] then None
             else Some ((log_call ElementLoad w)\<lparr>element := Some (audio_el\<lparr>src := u\<rparr>)\<rparr>))
      else Some w)"

text \<open>Construct the context and the analyser, and wrap the element.\<close>

definition build_graph :: "hook_state \<Rightarrow> create_env \<Rightarrow> graph_world \<Rightarrow> bool \<times> graph_world" where
  "build_graph cl env w =
     (case new_context (new_state env) w of
        (newAudioContext, w1) \<Rightarrow>
          (let w2 = log_call (WrapElement newAudioContext) w1
           in case first_wrap env of
                Wrapped \<Rightarrow> finish_graph env newAudioContext w2
              | AlreadyConnected \<Rightarrow> retry_wrap_path cl env w2
              | WrapFailed \<Rightarrow> (False, log_error w2)))"

text \<open>The result is the boolean the function resolves to.\<close>

definition createNewContext ::
  "hook_state \<Rightarrow> create_env \<Rightarrow> string option \<Rightarrow> graph_world \<Rightarrow> bool \<times> graph_world" where
  "createNewContext cl env sourceUrl w =
     (if \<not> supported env then (False, log_error w)
      else case element w of
        None \<Rightarrow> (False, log_error w)
      | Some audio_el \<Rightarrow>
          (case ensure_source sourceUrl audio_el w of
             None \<Rightarrow> (False, log_error w)
           | Some w0 \<Rightarrow> build_graph cl env w0))"

text \<open>
  \<open>createAudioContext\<close>: with anything left of an older graph it resets and arms a timer of
  100 ms that will run \<open>createNewContext\<close>; otherwise it runs \<open>createNewContext\<close> at once.
\<close>

datatype create_outcome = Now bool | After100ms

definition createAudioContext ::
  "hook_state \<Rightarrow> create_env \<Rightarrow> string option \<Rightarrow> graph_world \<Rightarrow> create_outcome \<times> graph_world" where
  "createAudioContext cl env sourceUrl w =
     (if audioContext cl \<noteq> None \<or> audioSource cl \<noteq> None \<or> analyser cl \<noteq> None then
        (let w1 = safeResetAudioContext cl w
         in (After100ms, w1\<lparr>create_timers := create_timers w1 @ [(cl, sourceUrl)]\<rparr>))
      else (case createNewContext cl env sourceUrl w of (ok, w') \<Rightarrow> (Now ok, w')))"

text \<open>The oldest pending 100 ms timer fires.\<close>

definition create_timer_fired :: "create_env \<Rightarrow> graph_world \<Rightarrow> graph_world" where
  "create_timer_fired env w =
     (case create_timers w of
        [] \<Rightarrow> w
      | (cl, sourceUrl) # ts \<Rightarrow> snd (createNewContext cl env sourceUrl (w\<lparr>create_timers := ts\<rparr>)))"

text \<open>The contexts that are not closed, and how often \<open>close()\<close> was called on a context.\<close>

definition open_contexts :: "graph_world \<Rightarrow> nat list" where
  "open_contexts w = filter (\<lambda>c. ctx_state (contexts w ! c) \<noteq> Closed) [0..<length (contexts w)]"

definition close_calls :: "nat \<Rightarrow> graph_world \<Rightarrow> nat" where
  "close_calls c w = length (filter (\<lambda>x. x = ContextClose c) (calls w))"

definition wrap_calls :: "graph_world \<Rightarrow> nat" where
  "wrap_calls w = length (filter (\<lambda>x. case x of WrapElement n \<Rightarrow> True | _ \<Rightarrow> False) (calls w))"

section \<open>Concrete states used to exercise the theorems\<close>

definition demo_track :: "string \<Rightarrow> track" where
  "demo_track p =
     \<lparr> track_id = p, path = p, title = p, artist = ''artist'', album = ''album'',
       coverArt = None \<rparr>"

definition demo_shuffle :: app_state where
  "demo_shuffle =
     \<lparr> currentTrack = None,
       allTracks = [demo_track ''a'', demo_track ''b'', demo_track ''c''],
       currentTrackIndex = 0, isShuffled = True, shuffleHistory = [0],
       shuffleHistoryIndex = 0 \<rparr>"

definition demo_shuffle1 :: app_state where
  "demo_shuffle1 =
     demo_shuffle\<lparr>currentTrackIndex := 2, shuffleHistory := [0, 2],
       shuffleHistoryIndex := 1, currentTrack := Some (track_entry (demo_track ''c''))\<rparr>"

definition demo_shuffle2 :: app_state where
  "demo_shuffle2 =
     demo_shuffle1\<lparr>currentTrackIndex := 0, shuffleHistory := [0, 2, 0],
       shuffleHistoryIndex := 2, currentTrack := Some (track_entry (demo_track ''a''))\<rparr>"

definition demo_single :: app_state where
  "demo_single =
     \<lparr> currentTrack = Some (track_entry (demo_track ''a'')),
       allTracks = [demo_track ''a''],
       currentTrackIndex = 0, isShuffled = True, shuffleHistory = [0],
       shuffleHistoryIndex = 0 \<rparr>"

definition demo_empty :: app_state where
  "demo_empty =
     \<lparr> currentTrack = Some (track_entry (demo_track ''a'')),
       allTracks = [],
       currentTrackIndex = - 1, isShuffled = True, shuffleHistory = [],
       shuffleHistoryIndex = - 1 \<rparr>"

definition demo_audio :: audio_element where
  "demo_audio = \<lparr> el_currentTime = 118, el_play_requests = 0 \<rparr>"

definition demo_player :: player where
  "demo_player =
     \<lparr> isPlaying = True, currentTime = 118, duration = 118, loading = False, error = None,
       repeatMode = 1, audio = Some demo_audio \<rparr>"

text \<open>A player before any metadata has arrived: the duration still has its initial value.\<close>

definition demo_fresh_player :: player where
  "demo_fresh_player =
     \<lparr> isPlaying = False, currentTime = 0, duration = 0, loading = True, error = None,
       repeatMode = 0, audio = Some \<lparr> el_currentTime = 0, el_play_requests = 0 \<rparr> \<rparr>"

text \<open>Three tracks played in order, the last one current.\<close>

definition demo_last :: app_state where
  "demo_last =
     \<lparr> currentTrack = Some (track_entry (demo_track ''c'')),
       allTracks = [demo_track ''a'', demo_track ''b'', demo_track ''c''],
       currentTrackIndex = 2, isShuffled = False, shuffleHistory = [],
       shuffleHistoryIndex = - 1 \<rparr>"

definition demo_blocked :: js_thrown where
  "demo_blocked = ErrorObject ''play() failed because the user did not interact with the document first''"

text \<open>Both play requests are rejected and the load stays current.\<close>

definition demo_env_blocked :: load_env where
  "demo_env_blocked =
     \<lparr> first_play = PlayRejected demo_blocked, mounted_at_settle = True,
       mounted_at_retry_timer = True, retry_play = PlayRejected demo_blocked,
       mounted_at_retry_settle = True \<rparr>"


text \<open>A frequency snapshot of 128 bins (transform size 256) with energy in the bass window.\<close>

definition demo_bins :: "8 word list" where
  "demo_bins = [255, 200, 180, 90, 60, 30, 10, 0] @ replicate 120 0"


text \<open>
  A player with one graph built: context 0 is running and wraps the media element; no
  frame is scheduled.
\<close>

definition demo_graph :: graph_world where
  "demo_graph =
     \<lparr> animationFrameRef = None, scheduled = [], last_handle = 0,
       contexts = [\<lparr>ctx_state = Running, close_requested = False\<rparr>],
       hook = \<lparr>audioContext = Some 0, analyser = Some 0, audioSource = Some 0\<rparr>,
       element = Some \<lparr>src = ''/api/audio?path=a.mp3''\<rparr>,
       close_continuations = [], create_timers = [], errors_logged = 0, calls = [] \<rparr>"

text \<open>The element is already wrapped; after the old context is closed the second wrap succeeds.\<close>

definition demo_conflict :: create_env where
  "demo_conflict =
     \<lparr> supported = True, new_state = Running, first_wrap = AlreadyConnected,
       retry_wrap = Wrapped, resume_ok = True \<rparr>"

definition demo_fresh :: create_env where
  "demo_fresh =
     \<lparr> supported = True, new_state = Running, first_wrap = Wrapped,
       retry_wrap = Wrapped, resume_ok = True \<rparr>"

section \<open>Properties of the playlist session\<close>

lemma js_get_Some_iff:
  "js_get xs i = Some v \<longleftrightarrow> 0 \<le> i \<and> i < int (length xs) \<and> xs ! nat i = v"
  by (auto simp: js_get_def)

lemma js_slice0_all: "int (length xs) \<le> e \<Longrightarrow> js_slice0 xs e = xs"
  by (simp add: js_slice0_def Let_def)

text \<open>
  A "next" request in shuffle mode that does select a track either steps forward inside the
  recorded history or appends the selected index to it.
\<close>

lemma next_shuffled_cases:
  assumes sh: "isShuffled s" and ok: "handleNextTrack r s = Inr s'"
      and eff: "getNextTrackIndex r s \<noteq> Some (- 1)"
  obtains (forward) n t where "shuffleHistoryIndex s < int (length (shuffleHistory s)) - 1"
      "js_get (shuffleHistory s) (shuffleHistoryIndex s + 1) = Some n" "n \<noteq> - 1"
      "js_get (allTracks s) n = Some t"
      "s' = s\<lparr>currentTrackIndex := n, shuffleHistoryIndex := shuffleHistoryIndex s + 1,
              currentTrack := Some (track_entry t)\<rparr>"
    | (append) n t where "\<not> shuffleHistoryIndex s < int (length (shuffleHistory s)) - 1"
      "n \<noteq> - 1" "js_get (allTracks s) n = Some t"
      "s' = s\<lparr>currentTrackIndex := n, shuffleHistory := shuffleHistory s @ [n],
              shuffleHistoryIndex := int (length (shuffleHistory s)),
              currentTrack := Some (track_entry t)\<rparr>"
proof -
  from ok obtain n where g: "getNextTrackIndex r s = Some n"
    by (auto simp: handleNextTrack_def split: option.splits)
  with eff have n: "n \<noteq> - 1" by simp
  from ok g n obtain t where t: "js_get (allTracks s) n = Some t"
    by (auto simp: handleNextTrack_def Let_def split: option.splits)
  show thesis
  proof (cases "shuffleHistoryIndex s < int (length (shuffleHistory s)) - 1")
    case True
    have ne: "length (allTracks s) \<noteq> 0"
      using t by (auto simp: js_get_def split: if_splits)
    from g sh True ne have h: "js_get (shuffleHistory s) (shuffleHistoryIndex s + 1) = Some n"
      by (simp add: getNextTrackIndex_def)
    from ok g n t sh True
    have "s' = s\<lparr>currentTrackIndex := n, shuffleHistoryIndex := shuffleHistoryIndex s + 1,
              currentTrack := Some (track_entry t)\<rparr>"
      by (simp add: handleNextTrack_def Let_def)
    with True h n t show thesis by (rule forward)
  next
    case False
    then have sl: "js_slice0 (shuffleHistory s) (shuffleHistoryIndex s + 1) = shuffleHistory s"
      by (intro js_slice0_all) simp
    from ok g n t sh False sl
    have "s' = s\<lparr>currentTrackIndex := n, shuffleHistory := shuffleHistory s @ [n],
              shuffleHistoryIndex := int (length (shuffleHistory s)),
              currentTrack := Some (track_entry t)\<rparr>"
      by (simp add: handleNextTrack_def Let_def)
    with False n t show thesis by (rule append)
  qed
qed

text \<open>After such a request the cursor points at the entry of the track now current.\<close>

lemma next_shuffled_cursor:
  assumes sh: "isShuffled s" and ok: "handleNextTrack r s = Inr s'"
      and eff: "getNextTrackIndex r s \<noteq> Some (- 1)"
  shows "isShuffled s' \<and> allTracks s' = allTracks s
    \<and> js_get (shuffleHistory s') (shuffleHistoryIndex s') = Some (currentTrackIndex s')
    \<and> currentTrackIndex s' \<noteq> - 1
    \<and> js_get (allTracks s) (currentTrackIndex s') \<noteq> None"
  using sh ok eff
proof (cases rule: next_shuffled_cases)
  case (forward n t)
  then show ?thesis using sh by simp
next
  case (append n t)
  then show ?thesis using sh by (simp add: js_get_def)
qed

text \<open>It moves the cursor one step on and keeps the entry the cursor was at.\<close>

lemma next_shuffled_prefix:
  assumes sh: "isShuffled s" and ok: "handleNextTrack r s = Inr s'"
      and eff: "getNextTrackIndex r s \<noteq> Some (- 1)"
      and cur: "js_get (shuffleHistory s) (shuffleHistoryIndex s) = Some c"
  shows "shuffleHistoryIndex s' = shuffleHistoryIndex s + 1
    \<and> js_get (shuffleHistory s') (shuffleHistoryIndex s) = Some c"
  using sh ok eff
proof (cases rule: next_shuffled_cases)
  case (forward n t)
  then show ?thesis using cur by simp
next
  case (append n t)
  from cur have r: "0 \<le> shuffleHistoryIndex s"
      "shuffleHistoryIndex s < int (length (shuffleHistory s))"
      "shuffleHistory s ! nat (shuffleHistoryIndex s) = c"
    by (simp_all add: js_get_Some_iff)
  with append(1) have e: "shuffleHistoryIndex s = int (length (shuffleHistory s)) - 1"
    by simp
  have "nat (shuffleHistoryIndex s) < length (shuffleHistory s)" using r by simp
  then have "(shuffleHistory s @ [n]) ! nat (shuffleHistoryIndex s) = c"
    using r(3) by (simp add: nth_append)
  then show ?thesis using append r e by (simp add: js_get_def)
qed

text \<open>
  A "previous" request never changes the history list or the track list; in shuffle mode
  it either changes nothing or moves the cursor back by one.
\<close>

lemma handlePreviousTrack_history:
  "handlePreviousTrack s = Inr s' \<Longrightarrow>
     shuffleHistory s' = shuffleHistory s \<and> allTracks s' = allTracks s
     \<and> isShuffled s' = isShuffled s"
  by (auto simp: handlePreviousTrack_def Let_def split: option.splits if_splits)

lemma handlePreviousTrack_cursor:
  assumes "isShuffled s" "handlePreviousTrack s = Inr s'"
  shows "s' = s \<or> shuffleHistoryIndex s' = shuffleHistoryIndex s - 1"
proof (cases "length (shuffleHistory s) > 0 \<and> shuffleHistoryIndex s > 0")
  case True
  with assms show ?thesis
    by (auto simp: handlePreviousTrack_def Let_def split: option.splits if_splits)
next
  case False
  with assms have "getPreviousTrackIndex s = Some (- 1)"
    by (auto simp: getPreviousTrackIndex_def)
  with assms show ?thesis by (simp add: handlePreviousTrack_def)
qed

lemma demo_shuffle_sel:
  "allTracks demo_shuffle = [demo_track ''a'', demo_track ''b'', demo_track ''c'']"
  "currentTrackIndex demo_shuffle = 0" "isShuffled demo_shuffle"
  "shuffleHistory demo_shuffle = [0]" "shuffleHistoryIndex demo_shuffle = 0"
  by (simp_all add: demo_shuffle_def)

lemma demo_next1: "getNextTrackIndex (1/2) demo_shuffle = Some 2"
  by (simp add: getNextTrackIndex_def demo_shuffle_sel js_get_def Let_def upt_rec)

lemma demo_step1: "handleNextTrack (1/2) demo_shuffle = Inr demo_shuffle1"
  by (simp add: handleNextTrack_def demo_next1 demo_shuffle_sel demo_shuffle1_def
      js_get_def js_slice0_def Let_def)

lemma demo_shuffle1_sel:
  "allTracks demo_shuffle1 = [demo_track ''a'', demo_track ''b'', demo_track ''c'']"
  "currentTrackIndex demo_shuffle1 = 2" "isShuffled demo_shuffle1"
  "shuffleHistory demo_shuffle1 = [0, 2]" "shuffleHistoryIndex demo_shuffle1 = 1"
  by (simp_all add: demo_shuffle1_def demo_shuffle_sel)

lemma demo_next2: "getNextTrackIndex 0 demo_shuffle1 = Some 0"
  by (simp add: getNextTrackIndex_def demo_shuffle1_sel js_get_def Let_def upt_rec)

lemma demo_step2: "handleNextTrack 0 demo_shuffle1 = Inr demo_shuffle2"
  by (simp add: handleNextTrack_def demo_next2 demo_shuffle1_sel demo_shuffle2_def
      js_get_def js_slice0_def Let_def)

text \<open>
  Claim C8. In shuffle mode, take any session state, two "next" requests that each select a
  track, and then a "previous" request. The index computed for "previous" is the entry of
  the history just before the cursor, which is the track that was current between the two
  "next" requests (no random draw is involved: \<open>getPreviousTrackIndex\<close> has no random
  input). The request succeeds, makes that track current, moves the cursor back by one and
  leaves the history list as it was. The starting state is arbitrary, so this covers any
  number of earlier requests.
\<close>

theorem shuffle_previous_after_two_next:
  assumes sh: "isShuffled s0"
      and n1: "handleNextTrack r1 s0 = Inr s1" and e1: "getNextTrackIndex r1 s0 \<noteq> Some (- 1)"
      and n2: "handleNextTrack r2 s1 = Inr s2" and e2: "getNextTrackIndex r2 s1 \<noteq> Some (- 1)"
  shows "getPreviousTrackIndex s2 = Some (currentTrackIndex s1)
       \<and> getPreviousTrackIndex s2 = js_get (shuffleHistory s2) (shuffleHistoryIndex s2 - 1)
       \<and> (\<exists>s3. handlePreviousTrack s2 = Inr s3
              \<and> currentTrackIndex s3 = currentTrackIndex s1
              \<and> shuffleHistory s3 = shuffleHistory s2
              \<and> shuffleHistoryIndex s3 = shuffleHistoryIndex s2 - 1)"
proof -
  from next_shuffled_cursor [OF sh n1 e1]
  have a: "isShuffled s1" "allTracks s1 = allTracks s0"
      "js_get (shuffleHistory s1) (shuffleHistoryIndex s1) = Some (currentTrackIndex s1)"
      "currentTrackIndex s1 \<noteq> - 1" "js_get (allTracks s0) (currentTrackIndex s1) \<noteq> None"
    by simp_all
  from next_shuffled_prefix [OF a(1) n2 e2 a(3)]
  have b: "shuffleHistoryIndex s2 = shuffleHistoryIndex s1 + 1"
      "js_get (shuffleHistory s2) (shuffleHistoryIndex s1) = Some (currentTrackIndex s1)"
    by simp_all
  from next_shuffled_cursor [OF a(1) n2 e2]
  have c: "isShuffled s2" "allTracks s2 = allTracks s1" by simp_all
  from a(3) have i1: "0 \<le> shuffleHistoryIndex s1"
    by (simp add: js_get_def split: if_splits)
  from b(2) have len: "length (shuffleHistory s2) > 0"
    by (auto simp: js_get_def split: if_splits)
  have p: "getPreviousTrackIndex s2 = Some (currentTrackIndex s1)"
    using c(1) b i1 len by (simp add: getPreviousTrackIndex_def)
  have q: "js_get (shuffleHistory s2) (shuffleHistoryIndex s2 - 1) = Some (currentTrackIndex s1)"
    using b by simp
  from a(5) a(2) c(2) obtain t where t: "js_get (allTracks s2) (currentTrackIndex s1) = Some t"
    by auto
  have "handlePreviousTrack s2 =
          Inr (s2\<lparr>currentTrackIndex := currentTrackIndex s1,
                   shuffleHistoryIndex := shuffleHistoryIndex s2 - 1,
                   currentTrack := Some (track_entry t)\<rparr>)"
    using p t a(4) c(1) b(1) i1 by (simp add: handlePreviousTrack_def Let_def)
  with p q show ?thesis by simp
qed

theorem shuffle_previous_after_two_next_witness:
  "isShuffled demo_shuffle
       \<and> handleNextTrack (1/2) demo_shuffle = Inr demo_shuffle1
       \<and> handleNextTrack 0 demo_shuffle1 = Inr demo_shuffle2
       \<and> getPreviousTrackIndex demo_shuffle2 = Some 2
       \<and> (\<exists>s3. handlePreviousTrack demo_shuffle2 = Inr s3
              \<and> currentTrackIndex s3 = 2
              \<and> shuffleHistory s3 = [0, 2, 0]
              \<and> shuffleHistoryIndex s3 = 1)"
  using shuffle_previous_after_two_next [of demo_shuffle "1/2" demo_shuffle1 0 demo_shuffle2]
  by (simp add: demo_step1 demo_step2 demo_next1 demo_next2 demo_shuffle_sel
      demo_shuffle1_sel demo_shuffle2_def)

text \<open>
  Claim C10. In shuffle mode with the cursor at the end of the history (the code's test
  \<open>shuffleHistoryIndex < shuffleHistory.length - 1\<close> is false): with exactly one track
  \<open>getNextTrackIndex\<close> returns the current index; with no track it returns \<open>-1\<close> and
  \<open>handleNextTrack\<close> leaves the whole session state, in particular the current index and
  the current track, as it was.
\<close>

theorem shuffle_next_degenerate_sizes:
  assumes "isShuffled s"
      and "\<not> shuffleHistoryIndex s < int (length (shuffleHistory s)) - 1"
  shows "(length (allTracks s) = 1 \<longrightarrow> getNextTrackIndex rnd s = Some (currentTrackIndex s))
       \<and> (allTracks s = [] \<longrightarrow>
             getNextTrackIndex rnd s = Some (- 1) \<and> handleNextTrack rnd s = Inr s)"
  using assms by (auto simp: getNextTrackIndex_def handleNextTrack_def)

theorem shuffle_next_degenerate_sizes_witness:
  "isShuffled demo_single \<and> length (allTracks demo_single) = 1
     \<and> getNextTrackIndex 0 demo_single = Some 0
     \<and> isShuffled demo_empty \<and> allTracks demo_empty = []
     \<and> getNextTrackIndex 0 demo_empty = Some (- 1)
     \<and> handleNextTrack 0 demo_empty = Inr demo_empty
     \<and> currentTrack demo_empty = Some (track_entry (demo_track ''a''))"
  using shuffle_next_degenerate_sizes [of demo_single 0]
    shuffle_next_degenerate_sizes [of demo_empty 0]
  by (simp add: demo_single_def demo_empty_def)

section \<open>Properties of the player component\<close>

lemma demo_last_sel:
  "allTracks demo_last = [demo_track ''a'', demo_track ''b'', demo_track ''c'']"
  "currentTrackIndex demo_last = 2" "\<not> isShuffled demo_last"
  by (simp_all add: demo_last_def)

text \<open>
  What \<open>handleEnded\<close> does in each case: it always stops and resets the position first;
  with repeat-one it asks the element to play again and takes no callback; otherwise it
  invokes at most one of the two callbacks, chosen from the properties.
\<close>

lemma handleEnded_stops_first:
  "repeatMode p \<noteq> 2 \<Longrightarrow>
     \<not> isPlaying (fst (handleEnded props pr p)) \<and> currentTime (fst (handleEnded props pr p)) = 0"
  by (simp add: handleEnded_def Let_def)

lemma handleEnded_callback:
  "repeatMode p \<noteq> 2 \<Longrightarrow>
     snd (handleEnded props pr p) =
       (if hasNext props \<and> onNext props then Some OnNext
        else if repeatMode p = 1 \<and> \<not> hasNext props \<and> hasPrevious props \<and> onPrevious props
          then Some OnPrevious
        else None)"
  by (auto simp: handleEnded_def Let_def)

lemma handleEnded_repeat_one:
  "repeatMode p = 2 \<Longrightarrow> audio p = Some a \<Longrightarrow>
     handleEnded props PlayResolved p =
       (p\<lparr>isPlaying := True, currentTime := 0,
          audio := Some \<lparr>el_currentTime = 0, el_play_requests = el_play_requests a + 1\<rparr>\<rparr>, None)"
  by (simp add: handleEnded_def Let_def)

text \<open>
  Claim C1, evaluated where it fails. Three tracks are played in order with repeat-all and
  the last one (index 2) ends: no next track exists and a previous one does, so the claim
  has the player wrap to index 0. \<open>App\<close> passes \<open>hasNext = (allTracks.length > 0)\<close>, which is
  true; \<open>handleEnded\<close> invokes \<open>onNext\<close>; \<open>getNextTrackIndex\<close> gives \<open>-1\<close> and nothing is
  selected: the session stays at index 2 and the player is stopped at position 0.
  With \<open>hasNext\<close> false and \<open>hasPrevious\<close> true the wrap branch of \<open>handleEnded\<close> invokes
  \<open>onPrevious\<close>, and \<open>handlePreviousTrack\<close> selects index 1, not 0.
\<close>

theorem ended_repeat_all_at_last_track:
  "track_ended rnd pr (demo_last, demo_player) =
     Inr (demo_last, demo_player\<lparr>isPlaying := False, currentTime := 0,
                        audio := Some (demo_audio\<lparr>el_currentTime := 0\<rparr>)\<rparr>)
   \<and> currentTrackIndex demo_last = 2
   \<and> snd (handleEnded \<lparr>hasPrevious = True, hasNext = False, onNext = True, onPrevious = True\<rparr>
             pr demo_player) = Some OnPrevious
   \<and> map_sum id currentTrackIndex (handlePreviousTrack demo_last) = Inr 1"
proof -
  have props: "app_props demo_last =
      \<lparr>hasPrevious = True, hasNext = True, onNext = True, onPrevious = True\<rparr>"
    by (simp add: app_props_def getPreviousTrackIndex_def demo_last_sel)
  have rm: "repeatMode demo_player = 1" "audio demo_player = Some demo_audio"
    by (simp_all add: demo_player_def)
  have he: "handleEnded (app_props demo_last) pr demo_player =
      (demo_player\<lparr>isPlaying := False, currentTime := 0,
                   audio := Some (demo_audio\<lparr>el_currentTime := 0\<rparr>)\<rparr>, Some OnNext)"
    by (simp add: props handleEnded_def Let_def rm)
  have nx: "getNextTrackIndex rnd demo_last = Some (- 1)"
    by (simp add: getNextTrackIndex_def demo_last_sel)
  have hn: "handleNextTrack rnd demo_last = Inr demo_last"
    by (simp add: handleNextTrack_def nx)
  have a: "track_ended rnd pr (demo_last, demo_player) =
     Inr (demo_last, demo_player\<lparr>isPlaying := False, currentTime := 0,
                        audio := Some (demo_audio\<lparr>el_currentTime := 0\<rparr>)\<rparr>)"
    by (simp add: track_ended_def he hn)
  have b: "snd (handleEnded \<lparr>hasPrevious = True, hasNext = False, onNext = True, onPrevious = True\<rparr>
             pr demo_player) = Some OnPrevious"
    by (simp add: handleEnded_def Let_def rm)
  have pv: "getPreviousTrackIndex demo_last = Some 1"
    by (simp add: getPreviousTrackIndex_def demo_last_sel)
  have c: "map_sum id currentTrackIndex (handlePreviousTrack demo_last) = Inr 1"
    by (simp add: handlePreviousTrack_def pv demo_last_sel js_get_def Let_def)
  from a b c show ?thesis by (simp add: demo_last_sel)
qed

text \<open>
  Claim C9 as stated fails. A seek to \<open>-5\<close> on a track of 118 seconds publishes the position
  \<open>-5\<close>, outside \<open>[0, duration]\<close>; and on a player whose duration is not known yet (it still
  has its initial value 0) a seek to \<open>1/2\<close> is not ignored: the position changes.
\<close>

theorem seek_not_clamped_counterexample:
  "\<not> (0 \<le> currentTime (handleSeek (- 5) demo_player)
        \<and> currentTime (handleSeek (- 5) demo_player) \<le> duration (handleSeek (- 5) demo_player))
   \<and> duration demo_fresh_player = 0
   \<and> handleSeek (1 / 2) demo_fresh_player \<noteq> demo_fresh_player"
proof -
  have "currentTime (handleSeek (1 / 2) demo_fresh_player) \<noteq> currentTime demo_fresh_player"
    by (simp add: handleSeek_def demo_fresh_player_def)
  then have "handleSeek (1 / 2) demo_fresh_player \<noteq> demo_fresh_player" by metis
  then show ?thesis by (simp add: handleSeek_def demo_player_def demo_fresh_player_def)
qed

text \<open>
  Claim C9 as amended: \<open>handleSeek\<close> publishes the requested time unchanged as the position
  and assigns the same value to the media element when there is one, for every requested
  time and whatever the duration is; it changes nothing else.
\<close>

theorem seek_sets_requested_time:
  "currentTime (handleSeek t p) = t
   \<and> map_option el_currentTime (audio (handleSeek t p)) = map_option (\<lambda>a. t) (audio p)
   \<and> map_option el_play_requests (audio (handleSeek t p)) = map_option el_play_requests (audio p)
   \<and> duration (handleSeek t p) = duration p
   \<and> isPlaying (handleSeek t p) = isPlaying p
   \<and> loading (handleSeek t p) = loading p
   \<and> error (handleSeek t p) = error p
   \<and> repeatMode (handleSeek t p) = repeatMode p"
  by (simp add: handleSeek_def split: option.splits)

text \<open>
  The block never makes more than two play requests: the first one and at most one retry.
\<close>

lemma autoPlay_at_most_two_requests:
  "el_play_requests (fst (autoPlay env a p)) \<le> el_play_requests a + 2"
  by (simp add: autoPlay_def Let_def split: play_result.splits)

text \<open>
  A load that was superseded before the retry timer fires (the effect's cleanup cleared
  \<open>isMounted\<close>) cancels its retry: no second play request and no change of the player.
\<close>

lemma autoPlay_superseded_load:
  assumes "first_play env = PlayRejected err" "\<not> mounted_at_retry_timer env"
  shows "el_play_requests (fst (autoPlay env a p)) = el_play_requests a + 1
       \<and> fst (snd (autoPlay env a p)) = p"
  using assms by (simp add: autoPlay_def Let_def)

text \<open>
  Claim C6. Take a track load that stays current (\<open>isMounted\<close> holds when the retry timer
  fires and when the retry settles) and whose first play request the browser rejects. The
  player arms one timer with the fixed delay of 300 ms and, when it fires, makes the play
  request exactly once more: two requests in all, never a second retry. If the retry is
  rejected too, the error message \<open>Error loading audio: ...\<close> is set for the UI and
  \<open>loading\<close> and \<open>isPlaying\<close> are cleared; if the retry succeeds, the player is playing.
\<close>

theorem autoplay_retries_exactly_once:
  assumes rejected: "first_play env = PlayRejected err"
      and current: "mounted_at_retry_timer env" "mounted_at_retry_settle env"
  shows "snd (snd (autoPlay env a p)) = Some 300
       \<and> el_play_requests (fst (autoPlay env a p)) = el_play_requests a + 2
       \<and> fst (snd (autoPlay env a p)) =
           (case retry_play env of
              PlayRejected err' \<Rightarrow>
                p\<lparr>loading := False, isPlaying := False,
                  error := Some (''Error loading audio: '' @ errorMessage err')\<rparr>
            | PlayResolved \<Rightarrow> p\<lparr>loading := False, isPlaying := True\<rparr>
            | PlayUndefined \<Rightarrow> p)"
  using assms
  by (simp add: autoPlay_def handleFailure_def handleSuccess_def Let_def
      split: play_result.splits)

theorem autoplay_retries_exactly_once_witness:
  "first_play demo_env_blocked = PlayRejected demo_blocked
   \<and> mounted_at_retry_timer demo_env_blocked
   \<and> mounted_at_retry_settle demo_env_blocked
   \<and> retry_play demo_env_blocked = PlayRejected demo_blocked
   \<and> snd (snd (autoPlay demo_env_blocked demo_audio demo_fresh_player)) = Some 300
   \<and> el_play_requests (fst (autoPlay demo_env_blocked demo_audio demo_fresh_player)) = 2
   \<and> error (fst (snd (autoPlay demo_env_blocked demo_audio demo_fresh_player))) =
        Some (''Error loading audio: '' @ errorMessage demo_blocked)
   \<and> \<not> isPlaying (fst (snd (autoPlay demo_env_blocked demo_audio demo_fresh_player)))"
  using autoplay_retries_exactly_once
          [of demo_env_blocked demo_blocked demo_audio demo_fresh_player]
  by (simp add: demo_env_blocked_def demo_audio_def)

section \<open>Properties of the bass analysis loop\<close>

lemma bass_loop_upto:
  "n \<le> length dataArray \<Longrightarrow>
     fold (bass_step dataArray) [0..<n] (Some (0, 0)) =
       Some (sum_list (map unat (take n dataArray)),
             Max (insert 0 (set (map unat (take n dataArray)))))"
proof (induction n)
  case 0
  then show ?case by simp
next
  case (Suc n)
  then have n: "n < length dataArray" by simp
  let ?xs = "map unat (take n dataArray)"
  let ?v = "unat (dataArray ! n)"
  have tk: "map unat (take (Suc n) dataArray) = ?xs @ [?v]"
    using n by (simp add: take_Suc_conv_app_nth)
  have "Max (insert ?v (insert 0 (set ?xs))) = max ?v (Max (insert 0 (set ?xs)))"
    by (rule Max_insert) simp_all
  then have mx: "Max (insert 0 (set (?xs @ [?v]))) = max (Max (insert 0 (set ?xs))) ?v"
    by (simp add: insert_commute max.commute)
  have ih: "fold (bass_step dataArray) [0..<n] (Some (0, 0)) =
      Some (sum_list ?xs, Max (insert 0 (set ?xs)))"
    using Suc.IH n by simp
  have "fold (bass_step dataArray) [0..<Suc n] (Some (0, 0)) =
      bass_step dataArray n (fold (bass_step dataArray) [0..<n] (Some (0, 0)))"
    by simp
  also have "\<dots> = bass_step dataArray n (Some (sum_list ?xs, Max (insert 0 (set ?xs))))"
    by (simp only: ih)
  also have "\<dots> = Some (sum_list ?xs + ?v, max (Max (insert 0 (set ?xs))) ?v)"
    using n by (simp add: bass_step_def js_get_def)
  also have "\<dots> = Some (sum_list (?xs @ [?v]), Max (insert 0 (set (?xs @ [?v]))))"
    by (simp only: mx) simp
  finally show ?case by (simp only: tk)
qed

lemma Max_insert_zero:
  fixes xs :: "nat list"
  assumes "xs \<noteq> []"
  shows "Max (insert 0 (set xs)) = Max (set xs)"
proof -
  have "Max (insert 0 (set xs)) = max 0 (Max (set xs))"
    using assms by (intro Max_insert) simp_all
  then show ?thesis by simp
qed

lemma bass_loop_window:
  assumes "bassRange \<le> length dataArray"
  shows "bass_loop dataArray =
     Some (sum_list (map unat (take bassRange dataArray)),
           Max (set (map unat (take bassRange dataArray))))"
proof -
  have ne: "map unat (take bassRange dataArray) \<noteq> []"
    using assms by (auto simp: bassRange_def)
  show ?thesis
    unfolding bass_loop_def bass_loop_upto [OF assms] Max_insert_zero [OF ne] ..
qed

lemma scaled_bass_bounds:
  fixes x :: real
  assumes "0 \<le> x"
  shows "0 \<le> min 1 x powr (8 / 10) * (8 / 10) \<and> min 1 x powr (8 / 10) * (8 / 10) \<le> 8 / 10"
proof -
  from assms have "0 \<le> min 1 x" "min 1 x \<le> 1" by simp_all
  then have "min 1 x powr (8 / 10) \<le> 1 powr (8 / 10)"
    by (intro powr_mono2) simp_all
  then have "min 1 x powr (8 / 10) \<le> 1" by simp
  moreover have "0 \<le> min 1 x powr (8 / 10)" by simp
  ultimately show ?thesis by simp
qed

text \<open>
  Claim C4. For every frequency snapshot that has the eight bins of the bass window, the
  value the tick computes is the specification's formula applied to the lowest eight bins,
  the tick publishes that value, and the value lies in \<open>[0, 0.8]\<close>. A tick whose read throws
  publishes 0, which lies in that interval too.
\<close>

theorem bass_intensity_formula_and_range:
  assumes "8 \<le> length dataArray"
  shows "analyzeBass_value dataArray = Num (spec_bass_intensity (map unat (take 8 dataArray)))
       \<and> bassValue (analyzeBass (Data dataArray) s) =
           Num (spec_bass_intensity (map unat (take 8 dataArray)))
       \<and> 0 \<le> spec_bass_intensity (map unat (take 8 dataArray))
       \<and> spec_bass_intensity (map unat (take 8 dataArray)) \<le> 8 / 10
       \<and> bassValue (analyzeBass Throws s) = Num 0"
proof -
  from assms have len: "bassRange \<le> length dataArray" by (simp add: bassRange_def)
  have l8: "length (take 8 dataArray) = 8" using assms by simp
  have v: "analyzeBass_value dataArray = Num (spec_bass_intensity (map unat (take 8 dataArray)))"
    unfolding analyzeBass_value_def bass_loop_window [OF len] spec_bass_intensity_def
    using assms by (simp add: bassRange_def Let_def)
  have p: "bassValue (analyzeBass (Data dataArray) s) = analyzeBass_value dataArray"
    by (simp add: analyzeBass_def requestAnimationFrame_def Let_def)
  have t: "bassValue (analyzeBass Throws s) = Num 0"
    by (simp add: analyzeBass_def Let_def)
  have b: "0 \<le> spec_bass_intensity (map unat (take 8 dataArray))
       \<and> spec_bass_intensity (map unat (take 8 dataArray)) \<le> 8 / 10"
    unfolding spec_bass_intensity_def Let_def by (rule scaled_bass_bounds) simp
  from v p t b show ?thesis by simp
qed

theorem bass_intensity_formula_and_range_witness:
  "8 \<le> length demo_bins
   \<and> analyzeBass_value demo_bins = Num (spec_bass_intensity [255, 200, 180, 90, 60, 30, 10, 0])
   \<and> 0 \<le> spec_bass_intensity [255, 200, 180, 90, 60, 30, 10, 0]
   \<and> spec_bass_intensity [255, 200, 180, 90, 60, 30, 10, 0] \<le> 8 / 10"
  using bass_intensity_formula_and_range [of demo_bins initial_analysis]
  by (simp add: demo_bins_def)

lemma cancel_pending_frame_fields:
  "bassValue (cancel_pending_frame s) = bassValue s"
  "ticks (cancel_pending_frame s) = ticks s"
  "cleanup_registered (cancel_pending_frame s) = cleanup_registered s"
  by (simp_all add: cancel_pending_frame_def cancelAnimationFrame_def split: option.splits)

lemma cancel_pending_frame_clears:
  assumes "loop_inv s"
  shows "animationFrameRef (cancel_pending_frame s) = None"
    and "scheduled (cancel_pending_frame s) = []"
proof -
  show "animationFrameRef (cancel_pending_frame s) = None"
    using assms
    by (cases "animationFrameRef s") (auto simp: loop_inv_def cancel_pending_frame_def)
  show "scheduled (cancel_pending_frame s) = []"
    using assms
    by (cases "animationFrameRef s"; cases "scheduled s")
       (auto simp: loop_inv_def cancel_pending_frame_def cancelAnimationFrame_def
             split: if_splits)
qed

lemma analyzeBass_from_empty:
  assumes "scheduled s = []" "animationFrameRef s \<noteq> Some 0"
  shows "loop_inv ((analyzeBass fd s)\<lparr>cleanup_registered := True\<rparr>)"
  using assms
  by (cases fd) (simp_all add: analyzeBass_def requestAnimationFrame_def loop_inv_def Let_def)

lemma step_loop_inv:
  assumes inv: "loop_inv s"
  shows "loop_inv (step e s)"
proof (cases e)
  case (DepsChanged has_analyser playing fd)
  let ?c = "if cleanup_registered s then cancel_pending_frame s else s"
  have c: "animationFrameRef ?c = None" "scheduled ?c = []"
    using inv cancel_pending_frame_clears [OF inv] by (auto simp: loop_inv_def)
  show ?thesis
  proof (cases "has_analyser \<and> playing")
    case True
    have "loop_inv ((analyzeBass fd ?c)\<lparr>cleanup_registered := True\<rparr>)"
      by (rule analyzeBass_from_empty) (simp_all only: c, simp)
    with True DepsChanged show ?thesis by (simp add: analysis_effect_def)
  next
    case False
    with DepsChanged c show ?thesis
      by (auto simp: analysis_effect_def loop_inv_def)
  qed
next
  case (AnimationFrame fd)
  show ?thesis
  proof (cases "scheduled s")
    case Nil
    then have "step e s = s" using AnimationFrame by (simp add: animation_frame_def)
    with inv show ?thesis by simp
  next
    case (Cons h hs)
    with inv have r: "cleanup_registered s" "hs = []" "animationFrameRef s = Some h"
        "animationFrameRef s \<noteq> Some 0"
      by (auto simp: loop_inv_def split: if_splits)
    let ?s0 = "s\<lparr>scheduled := []\<rparr>"
    have "loop_inv ((analyzeBass fd ?s0)\<lparr>cleanup_registered := True\<rparr>)"
      by (rule analyzeBass_from_empty) (use r in simp_all)
    moreover have "cleanup_registered (analyzeBass fd ?s0)"
      using r by (cases fd) (simp_all add: analyzeBass_def requestAnimationFrame_def Let_def)
    then have "(analyzeBass fd ?s0)\<lparr>cleanup_registered := True\<rparr> = analyzeBass fd ?s0"
      by simp
    ultimately show ?thesis using AnimationFrame Cons r by (simp add: animation_frame_def)
  qed
next
  case FrameCancelled
  show ?thesis
    using inv cancel_pending_frame_clears [OF inv] FrameCancelled
    by (simp add: loop_inv_def cancel_pending_frame_fields)
next
  case GraphReset
  show ?thesis
    using inv cancel_pending_frame_clears [OF inv] GraphReset
    by (simp add: loop_inv_def cancel_pending_frame_fields)
qed

lemma run_loop_inv: "loop_inv s \<Longrightarrow> loop_inv (fold step evs s)"
  by (induction evs arbitrary: s) (simp_all add: step_loop_inv)

lemma initial_loop_inv: "loop_inv initial_analysis"
  by (simp add: loop_inv_def initial_analysis_def)

text \<open>When the effect runs with "not playing", the loop comes to rest with value 0, without a tick.\<close>

lemma stop_playing_step:
  assumes inv: "loop_inv s"
  shows "at_rest (step (DepsChanged has_analyser False fd) s)"
    and "bassValue (step (DepsChanged has_analyser False fd) s) = Num 0"
    and "ticks (step (DepsChanged has_analyser False fd) s) = ticks s"
proof -
  let ?c = "if cleanup_registered s then cancel_pending_frame s else s"
  have c: "animationFrameRef ?c = None" "scheduled ?c = []" "ticks ?c = ticks s"
    using inv cancel_pending_frame_clears [OF inv]
    by (auto simp: loop_inv_def cancel_pending_frame_fields)
  show "at_rest (step (DepsChanged has_analyser False fd) s)"
    using c by (simp add: analysis_effect_def at_rest_def)
  show "bassValue (step (DepsChanged has_analyser False fd) s) = Num 0"
    by (simp add: analysis_effect_def)
  show "ticks (step (DepsChanged has_analyser False fd) s) = ticks s"
    using c by (simp add: analysis_effect_def)
qed

text \<open>At rest, an event that does not set "playing" runs no tick and keeps the value 0.\<close>

lemma rest_step:
  assumes "at_rest s" "bassValue s = Num 0" "\<not> sets_playing e"
  shows "at_rest (step e s) \<and> bassValue (step e s) = Num 0 \<and> ticks (step e s) = ticks s"
  using assms
  by (cases e)
     (simp_all add: at_rest_def analysis_effect_def animation_frame_def
        cancel_pending_frame_def)

lemma rest_run:
  assumes "at_rest s" "bassValue s = Num 0" "\<forall>e \<in> set evs. \<not> sets_playing e"
  shows "at_rest (fold step evs s) \<and> bassValue (fold step evs s) = Num 0
       \<and> ticks (fold step evs s) = ticks s"
  using assms
proof (induction evs arbitrary: s)
  case Nil
  then show ?case by simp
next
  case (Cons e evs)
  then have e: "\<not> sets_playing e" and rest: "\<forall>e \<in> set evs. \<not> sets_playing e" by simp_all
  from rest_step [OF Cons.prems(1,2) e]
  have s: "at_rest (step e s)" "bassValue (step e s) = Num 0" "ticks (step e s) = ticks s"
    by simp_all
  from Cons.IH [OF s(1,2) rest] s(3) show ?case by simp
qed

text \<open>
  Claim C7. Take any history of the loop (effect runs, animation frames, cancellations and
  graph resets, from the initial state) and let the effect then run with "is playing"
  false. At that run the scheduled tick is cancelled (nothing is scheduled any more), the
  kept handle is \<open>null\<close>, the published value is 0, and that run itself ran no tick. After it,
  for any further events that do not set "is playing" to true, no tick runs, nothing is
  scheduled and the published value stays 0.
\<close>

theorem polling_stops_when_not_playing:
  assumes later: "\<forall>e \<in> set later. \<not> sets_playing e"
  shows "animationFrameRef (fold step (history @ [DepsChanged has_analyser False fd]) initial_analysis) = None
       \<and> scheduled (fold step (history @ [DepsChanged has_analyser False fd]) initial_analysis) = []
       \<and> bassValue (fold step (history @ [DepsChanged has_analyser False fd]) initial_analysis) = Num 0
       \<and> ticks (fold step (history @ [DepsChanged has_analyser False fd]) initial_analysis)
           = ticks (fold step history initial_analysis)
       \<and> ticks (fold step (history @ [DepsChanged has_analyser False fd] @ later) initial_analysis)
           = ticks (fold step history initial_analysis)
       \<and> scheduled (fold step (history @ [DepsChanged has_analyser False fd] @ later) initial_analysis) = []
       \<and> bassValue (fold step (history @ [DepsChanged has_analyser False fd] @ later) initial_analysis) = Num 0"
proof -
  let ?s = "fold step history initial_analysis"
  let ?s' = "step (DepsChanged has_analyser False fd) ?s"
  have inv: "loop_inv ?s" by (rule run_loop_inv [OF initial_loop_inv])
  note st = stop_playing_step [OF inv, of has_analyser fd]
  note rr = rest_run [OF st(1) st(2) later]
  have f1: "fold step (history @ [DepsChanged has_analyser False fd]) initial_analysis = ?s'"
    by simp
  have f2: "fold step (history @ [DepsChanged has_analyser False fd] @ later) initial_analysis
      = fold step later ?s'"
    by simp
  show ?thesis
    unfolding f1 f2 using st rr by (simp add: at_rest_def)
qed

theorem polling_stops_when_not_playing_witness:
  "\<not> sets_playing (AnimationFrame (Data demo_bins)) \<and> \<not> sets_playing GraphReset
   \<and> \<not> sets_playing (AnimationFrame Throws)
   \<and> ticks (fold step [DepsChanged True True (Data demo_bins), AnimationFrame (Data demo_bins)]
        initial_analysis) = 2
   \<and> scheduled (fold step [DepsChanged True True (Data demo_bins), AnimationFrame (Data demo_bins)]
        initial_analysis) = [2]
   \<and> animationFrameRef (fold step ([DepsChanged True True (Data demo_bins),
         AnimationFrame (Data demo_bins)] @ [DepsChanged True False (Data demo_bins)])
        initial_analysis) = None
   \<and> ticks (fold step ([DepsChanged True True (Data demo_bins), AnimationFrame (Data demo_bins)]
         @ [DepsChanged True False (Data demo_bins)]
         @ [AnimationFrame (Data demo_bins), GraphReset, AnimationFrame Throws])
        initial_analysis) = 2
   \<and> bassValue (fold step ([DepsChanged True True (Data demo_bins), AnimationFrame (Data demo_bins)]
         @ [DepsChanged True False (Data demo_bins)]
         @ [AnimationFrame (Data demo_bins), GraphReset, AnimationFrame Throws])
        initial_analysis) = Num 0"
proof -
  have h: "\<forall>e \<in> set [AnimationFrame (Data demo_bins), GraphReset, AnimationFrame Throws].
      \<not> sets_playing e"
    by simp
  have t: "ticks (fold step [DepsChanged True True (Data demo_bins),
        AnimationFrame (Data demo_bins)] initial_analysis) = 2
     \<and> scheduled (fold step [DepsChanged True True (Data demo_bins),
        AnimationFrame (Data demo_bins)] initial_analysis) = [2]"
    by (simp add: analysis_effect_def analyzeBass_def requestAnimationFrame_def
        animation_frame_def initial_analysis_def Let_def)
  from polling_stops_when_not_playing [OF h,
      of "[DepsChanged True True (Data demo_bins), AnimationFrame (Data demo_bins)]"
         True "Data demo_bins"] h t
  show ?thesis by simp
qed

section \<open>Properties of the audio graph manager\<close>

lemma demo_graph_sel:
  "contexts demo_graph = [\<lparr>ctx_state = Running, close_requested = False\<rparr>]"
  "hook demo_graph = \<lparr>audioContext = Some 0, analyser = Some 0, audioSource = Some 0\<rparr>"
  "element demo_graph = Some \<lparr>src = ''/api/audio?path=a.mp3''\<rparr>"
  "calls demo_graph = []" "errors_logged demo_graph = 0" "close_continuations demo_graph = []"
  "create_timers demo_graph = []" "animationFrameRef demo_graph = None"
  by (simp_all add: demo_graph_def)

text \<open>A context whose state is already \<open>closed\<close> is skipped: no \<open>close()\<close> call is made on it.\<close>

lemma closed_context_is_skipped:
  assumes "js_get (contexts w) (int c) = Some ctx" "ctx_state ctx = Closed"
  shows "safelyCloseAudioContext (Some c) w = (Settled, w)"
  using assms by (simp add: safelyCloseAudioContext_def)

text \<open>With nothing left in the closure, a reset only runs the cancel idiom.\<close>

lemma reset_of_nothing:
  "safeResetAudioContext \<lparr>audioContext = None, analyser = None, audioSource = None\<rparr> w
     = cancel_pending_frame w"
  by (simp add: safeResetAudioContext_def)

text \<open>\<open>createNewContext\<close> wraps the element at most twice, and fails when the second wrap fails.\<close>

lemma wrap_calls_simps:
  "wrap_calls (log_call c w) = wrap_calls w + (case c of WrapElement n \<Rightarrow> 1 | _ \<Rightarrow> 0)"
  "wrap_calls (log_error w) = wrap_calls w"
  "wrap_calls (set_graph n w) = wrap_calls w"
  "wrap_calls (snd (new_context st w)) = wrap_calls w"
  "wrap_calls (complete_close k w) = wrap_calls w"
  "wrap_calls (w\<lparr>hook := h\<rparr>) = wrap_calls w"
  "wrap_calls (w\<lparr>contexts := cs\<rparr>) = wrap_calls w"
  "wrap_calls (w\<lparr>element := e\<rparr>) = wrap_calls w"
  by (simp_all add: wrap_calls_def log_call_def log_error_def set_graph_def new_context_def
      complete_close_def Let_def split: platform_call.splits option.splits)

lemma wrap_calls_safelyClose:
  "wrap_calls (snd (safelyCloseAudioContext c w)) = wrap_calls w"
  by (simp add: safelyCloseAudioContext_def wrap_calls_simps Let_def split: option.splits)

lemma wrap_calls_close_existing: "wrap_calls (close_existing cl w) = wrap_calls w"
proof (cases "audioContext cl")
  case None
  then show ?thesis by (simp add: close_existing_def)
next
  case (Some c)
  obtain pr w' where r: "safelyCloseAudioContext (Some c) w = (pr, w')"
    by (cases "safelyCloseAudioContext (Some c) w")
  from wrap_calls_safelyClose [of "Some c" w] r have "wrap_calls w' = wrap_calls w" by simp
  with Some r show ?thesis
    by (cases pr) (simp_all add: close_existing_def wrap_calls_simps Let_def)
qed

lemma wrap_calls_retry: "wrap_calls (snd (retry_wrap_path cl env w)) = wrap_calls w + 1"
proof -
  obtain n w3 where r: "new_context (new_state env) (log_call ElementPause (close_existing cl w)) = (n, w3)"
    by (cases "new_context (new_state env) (log_call ElementPause (close_existing cl w))")
  from wrap_calls_simps(4) [of "new_state env" "log_call ElementPause (close_existing cl w)"] r
  have "wrap_calls w3 = wrap_calls w"
    by (simp add: wrap_calls_simps wrap_calls_close_existing)
  with r show ?thesis
    by (cases "retry_wrap env") (simp_all add: retry_wrap_path_def Let_def wrap_calls_simps)
qed

lemma wrap_calls_finish: "wrap_calls (snd (finish_graph env n w)) = wrap_calls w"
  by (simp add: finish_graph_def Let_def wrap_calls_simps)

lemma wrap_calls_build: "wrap_calls (snd (build_graph cl env w)) \<le> wrap_calls w + 2"
proof -
  obtain n w1 where r: "new_context (new_state env) w = (n, w1)"
    by (cases "new_context (new_state env) w")
  from wrap_calls_simps(4) [of "new_state env" w] r have "wrap_calls w1 = wrap_calls w"
    by simp
  with r show ?thesis
    by (cases "first_wrap env")
       (simp_all add: build_graph_def Let_def wrap_calls_simps wrap_calls_retry wrap_calls_finish)
qed

lemma wrap_calls_ensure_source:
  "ensure_source sourceUrl audio_el w = Some w0 \<Longrightarrow> wrap_calls w0 = wrap_calls w"
  by (auto simp: ensure_source_def wrap_calls_simps split: if_splits option.splits)

lemma createNewContext_wraps_at_most_twice:
  "wrap_calls (snd (createNewContext cl env sourceUrl w)) \<le> wrap_calls w + 2"
proof (cases "supported env")
  case False
  then show ?thesis by (simp add: createNewContext_def wrap_calls_simps)
next
  case True
  show ?thesis
  proof (cases "element w")
    case None
    with True show ?thesis by (simp add: createNewContext_def wrap_calls_simps)
  next
    case (Some audio_el)
    show ?thesis
    proof (cases "ensure_source sourceUrl audio_el w")
      case None
      with True Some show ?thesis by (simp add: createNewContext_def wrap_calls_simps)
    next
      case (Some w0)
      from wrap_calls_ensure_source [OF Some] wrap_calls_build [of cl env w0]
      have "wrap_calls (snd (build_graph cl env w0)) \<le> wrap_calls w + 2" by simp
      with True \<open>element w = Some audio_el\<close> Some show ?thesis
        by (simp add: createNewContext_def)
    qed
  qed
qed

lemma retry_wrap_path_fails:
  assumes "retry_wrap env \<noteq> Wrapped"
  shows "fst (retry_wrap_path cl env w) = False"
  using assms
  by (cases "retry_wrap env")
     (simp_all add: retry_wrap_path_def new_context_def Let_def)


lemma createNewContext_retry_fails:
  assumes "first_wrap env = AlreadyConnected" "retry_wrap env \<noteq> Wrapped"
  shows "fst (createNewContext cl env sourceUrl w) = False"
proof -
  have "fst (build_graph cl env w0) = False" for w0
    using assms
    by (simp add: build_graph_def retry_wrap_path_fails Let_def split: prod.splits)
  then show ?thesis
    by (simp add: createNewContext_def split: option.splits)
qed

lemmas graph_eval =
  safeResetAudioContext_def safelyCloseAudioContext_def complete_close_def
  createAudioContext_def create_timer_fired_def createNewContext_def ensure_source_def
  build_graph_def retry_wrap_path_def close_existing_def finish_graph_def new_context_def
  set_graph_def log_call_def log_error_def cancel_pending_frame_def js_get_def
  open_contexts_def close_calls_def wrap_calls_def Let_def

text \<open>
  Claim C2, evaluated where it fails. Context 0 is running and wraps the element, and
  \<open>createAudioContext\<close> is called again: it resets (requesting the close of context 0) and
  arms its timer; the browser finishes the close; the timer runs \<open>createNewContext\<close> with
  the closure of that render. Its wrap is refused as "already connected" and the retry
  succeeds. The code wraps exactly twice and resolves to \<open>true\<close>, and context 0 is closed;
  but \<open>newAudioContext\<close> (context 1), constructed for the first attempt, is never closed,
  so two contexts stay open: context 1 and \<open>retryContext\<close> (context 2).
\<close>

theorem conflict_retry_leaves_two_contexts_open:
  "create_timer_fired demo_conflict
      (complete_close 0 (snd (createAudioContext (hook demo_graph) demo_conflict None demo_graph)))
     = snd (createNewContext (hook demo_graph) demo_conflict None
         (complete_close 0 (safeResetAudioContext (hook demo_graph) demo_graph)))
   \<and> fst (createNewContext (hook demo_graph) demo_conflict None
         (complete_close 0 (safeResetAudioContext (hook demo_graph) demo_graph))) = True
   \<and> open_contexts (snd (createNewContext (hook demo_graph) demo_conflict None
         (complete_close 0 (safeResetAudioContext (hook demo_graph) demo_graph)))) = [1, 2]
   \<and> contexts (snd (createNewContext (hook demo_graph) demo_conflict None
         (complete_close 0 (safeResetAudioContext (hook demo_graph) demo_graph))))
        = [\<lparr>ctx_state = Closed, close_requested = True\<rparr>,
           \<lparr>ctx_state = Running, close_requested = False\<rparr>,
           \<lparr>ctx_state = Running, close_requested = False\<rparr>]
   \<and> hook (snd (createNewContext (hook demo_graph) demo_conflict None
         (complete_close 0 (safeResetAudioContext (hook demo_graph) demo_graph))))
        = \<lparr>audioContext = Some 2, analyser = Some 2, audioSource = Some 2\<rparr>
   \<and> calls (snd (createNewContext (hook demo_graph) demo_conflict None
         (complete_close 0 (safeResetAudioContext (hook demo_graph) demo_graph))))
        = [SourceDisconnect 0, AnalyserDisconnect 0, ContextClose 0,
           ContextNew 1, WrapElement 1, ElementPause, ContextNew 2, WrapElement 2]"
  by (simp add: graph_eval demo_graph_def demo_conflict_def upt_rec)

text \<open>
  The guard of \<open>createAudioContext\<close> holds at this input (a context is stored), so this is
  the path taken, and it ends with contexts 1 and 2 open.
\<close>

theorem conflict_retry_leaves_two_contexts_open_witness:
  "audioContext (hook demo_graph) \<noteq> None
   \<and> open_contexts (create_timer_fired demo_conflict
        (complete_close 0
          (snd (createAudioContext (hook demo_graph) demo_conflict None demo_graph)))) = [1, 2]"
  using conflict_retry_leaves_two_contexts_open by (simp add: demo_graph_sel)

text \<open>
  Claim C3, evaluated where it fails. \<open>createAudioContext\<close> is called on the same player:
  it calls \<open>safeResetAudioContext\<close>, which returns with the close of context 0 requested
  and not completed (the stored context is cleared only by the waiting \<open>.then\<close>), and arms
  the 100 ms timer. When the timer fires before the browser has finished closing,
  \<open>createNewContext\<close> constructs context 1 while context 0 is still not closed.
\<close>

theorem create_after_reset_does_not_wait_for_close:
  "contexts (safeResetAudioContext (hook demo_graph) demo_graph)
        = [\<lparr>ctx_state = Running, close_requested = True\<rparr>]
   \<and> fst (createAudioContext (hook demo_graph) demo_fresh None demo_graph) = After100ms
   \<and> contexts (snd (createAudioContext (hook demo_graph) demo_fresh None demo_graph))
        = [\<lparr>ctx_state = Running, close_requested = True\<rparr>]
   \<and> close_continuations (snd (createAudioContext (hook demo_graph) demo_fresh None demo_graph)) = [0]
   \<and> audioContext (hook (snd (createAudioContext (hook demo_graph) demo_fresh None demo_graph)))
        = Some 0
   \<and> contexts (create_timer_fired demo_fresh
        (snd (createAudioContext (hook demo_graph) demo_fresh None demo_graph)))
        = [\<lparr>ctx_state = Running, close_requested = True\<rparr>,
           \<lparr>ctx_state = Running, close_requested = False\<rparr>]
   \<and> open_contexts (create_timer_fired demo_fresh
        (snd (createAudioContext (hook demo_graph) demo_fresh None demo_graph))) = [0, 1]
   \<and> calls (create_timer_fired demo_fresh
        (snd (createAudioContext (hook demo_graph) demo_fresh None demo_graph)))
        = [SourceDisconnect 0, AnalyserDisconnect 0, ContextClose 0, ContextNew 1, WrapElement 1]"
  by (simp add: graph_eval demo_graph_def demo_fresh_def upt_rec)

text \<open>
  Claim C5, evaluated where it fails. \<open>safeResetAudioContext\<close> is called twice in a row from
  the same render, with no \<open>createAudioContext\<close> between and before the browser has
  finished closing: at the second call the \<open>state\<close> of context 0 is not yet \<open>closed\<close>, so
  the check does not skip it and \<open>close()\<close> is called on it a second time; the browser
  rejects that call and the error is logged. When the close has completed in between, the
  second call does skip the context.
\<close>

theorem second_reset_closes_again:
  "close_calls 0 (safeResetAudioContext (hook demo_graph)
        (safeResetAudioContext (hook demo_graph) demo_graph)) = 2
   \<and> errors_logged (safeResetAudioContext (hook demo_graph)
        (safeResetAudioContext (hook demo_graph) demo_graph)) = 1
   \<and> calls (safeResetAudioContext (hook demo_graph)
        (safeResetAudioContext (hook demo_graph) demo_graph))
        = [SourceDisconnect 0, AnalyserDisconnect 0, ContextClose 0,
           SourceDisconnect 0, AnalyserDisconnect 0, ContextClose 0]
   \<and> close_calls 0 (safeResetAudioContext (hook demo_graph)
        (complete_close 0 (safeResetAudioContext (hook demo_graph) demo_graph))) = 1"
  by (simp add: graph_eval demo_graph_def)


text \<open>
  The guard of \<open>createAudioContext\<close> holds at this input (a context is stored), so the reset
  and the timer are the path taken; the timer then finds context 0 still open.
\<close>

theorem create_after_reset_does_not_wait_for_close_witness:
  "audioContext (hook demo_graph) \<noteq> None
   \<and> fst (createAudioContext (hook demo_graph) demo_fresh None demo_graph) = After100ms
   \<and> open_contexts (create_timer_fired demo_fresh
        (snd (createAudioContext (hook demo_graph) demo_fresh None demo_graph))) = [0, 1]"
  using create_after_reset_does_not_wait_for_close by (simp add: demo_graph_sel)


end
